theory Spec2Isabelle
  imports Complex_Main "HOL-Library.Word" "HOL-Library.Multiset"
begin

section \<open>The arithmetic of \<^verbatim>\<open>double\<close>\<close>

text \<open>
  \<^verbatim>\<open>trapezoidal_rule\<close> computes in \<^verbatim>\<open>double\<close>. A value of that type is a finite
  number, one of the two infinities, or a NaN. The special values follow IEEE 754,
  which is what \<^verbatim>\<open>+\<close>, \<^verbatim>\<open>-\<close>, \<^verbatim>\<open>*\<close> and \<^verbatim>\<open>/\<close> on \<^verbatim>\<open>double\<close> do: a NaN
  operand gives NaN, \<open>\<infinity> - \<infinity>\<close>, \<open>0 * \<infinity>\<close>, \<open>0 / 0\<close> and \<open>\<infinity> / \<infinity>\<close> give NaN, and a
  nonzero finite number divided by zero gives an infinity. The only zero the routine
  ever divides by is the converted \<^verbatim>\<open>int\<close> 0, which is the positive zero, so the
  sign of the quotient is the sign of the dividend.

  The operations of this first section keep a finite result as the real it is: no
  rounding of the mantissa and no overflow of a finite result. They serve the
  statements that do not depend on how a finite result is rounded. The operations of
  the section on rounding apply binary64 to every finite result; they serve the
  statements in which rounding or overflow decides. The sign of a zero is modelled in
  neither.
\<close>

datatype double = Fin real | PInf | NInf | NaN

fun is_finite :: "double \<Rightarrow> bool" where
  "is_finite (Fin x) = True"
| "is_finite PInf = False"
| "is_finite NInf = False"
| "is_finite NaN = False"

fun is_negative :: "double \<Rightarrow> bool" where
  "is_negative (Fin x) = (x < 0)"
| "is_negative PInf = False"
| "is_negative NInf = True"
| "is_negative NaN = False"

fun signed_infinity :: "bool \<Rightarrow> double" where
  "signed_infinity True = NInf"
| "signed_infinity False = PInf"

instantiation double :: "{zero, one, plus, uminus, minus, times, inverse}"
begin

definition zero_double :: double where
  "zero_double = Fin 0"

definition one_double :: double where
  "one_double = Fin 1"

fun plus_double :: "double \<Rightarrow> double \<Rightarrow> double" where
  "plus_double NaN y = NaN"
| "plus_double x NaN = NaN"
| "plus_double PInf NInf = NaN"
| "plus_double NInf PInf = NaN"
| "plus_double PInf y = PInf"
| "plus_double x PInf = PInf"
| "plus_double NInf y = NInf"
| "plus_double x NInf = NInf"
| "plus_double (Fin x) (Fin y) = Fin (x + y)"

fun uminus_double :: "double \<Rightarrow> double" where
  "uminus_double (Fin x) = Fin (- x)"
| "uminus_double PInf = NInf"
| "uminus_double NInf = PInf"
| "uminus_double NaN = NaN"

definition minus_double :: "double \<Rightarrow> double \<Rightarrow> double" where
  "minus_double x y = x + (- y)"

fun times_double :: "double \<Rightarrow> double \<Rightarrow> double" where
  "times_double NaN y = NaN"
| "times_double x NaN = NaN"
| "times_double (Fin x) (Fin y) = Fin (x * y)"
| "times_double (Fin x) y = (if x = 0 then NaN else signed_infinity ((x < 0) \<noteq> is_negative y))"
| "times_double x (Fin y) = (if y = 0 then NaN else signed_infinity (is_negative x \<noteq> (y < 0)))"
| "times_double x y = signed_infinity (is_negative x \<noteq> is_negative y)"

fun divide_double :: "double \<Rightarrow> double \<Rightarrow> double" where
  "divide_double NaN y = NaN"
| "divide_double x NaN = NaN"
| "divide_double (Fin x) (Fin y) =
     (if y = 0 then (if x = 0 then NaN else signed_infinity (x < 0)) else Fin (x / y))"
| "divide_double (Fin x) y = Fin 0"
| "divide_double x (Fin y) = signed_infinity (is_negative x \<noteq> (y < 0))"
| "divide_double x y = NaN"

definition inverse_double :: "double \<Rightarrow> double" where
  "inverse_double x = divide (Fin 1) x"

instance ..

end

lemma plus_double_commute: "x + y = y + (x :: double)"
  by (cases x; cases y; simp)

lemma plus_double_assoc: "(x + y) + z = x + (y + (z :: double))"
  by (cases x; cases y; cases z; simp)

lemma plus_double_zero: "Fin 0 + x = x"
  by (cases x; simp)

instance double :: comm_monoid_add
proof
  fix x y z :: double
  show "x + y = y + x"
    by (rule plus_double_commute)
  show "(x + y) + z = x + (y + z)"
    by (rule plus_double_assoc)
  show "0 + x = x"
    unfolding zero_double_def by (rule plus_double_zero)
qed

instance double :: numeral ..

text \<open>The conversion of an \<^verbatim>\<open>int\<close> to \<^verbatim>\<open>double\<close>; it is exact for every 32-bit value.\<close>

definition double_of_int :: "int \<Rightarrow> double" where
  "double_of_int i = Fin (real_of_int i)"

section \<open>The routine\<close>

text \<open>
  \<^verbatim>\<open>n\<close> is a C++ \<^verbatim>\<open>int\<close>, a 32-bit two's complement value read by \<^const>\<open>sint\<close>.
  The loop test computes \<^verbatim>\<open>n - 1\<close> in \<^verbatim>\<open>int\<close>; for the least \<^verbatim>\<open>int\<close> that
  subtraction overflows, which is undefined behaviour and the model's only error.
\<close>

datatype error = SignedOverflow

definition INT_MIN :: int where
  "INT_MIN = - (2 ^ 31)"

text \<open>
  The \<^verbatim>\<open>for\<close> loop, from counter \<open>i\<close> up to the bound \<open>m = n - 1\<close>. It carries the
  accumulator \<^verbatim>\<open>value\<close> and, beside what the source computes, the list of the
  arguments \<^verbatim>\<open>func\<close> has been called with so far. The counter never leaves the
  range of \<^verbatim>\<open>int\<close>: it is incremented only while \<open>i \<le> n - 1\<close>.
\<close>

function trapezoidal_rule_loop ::
  "(double \<Rightarrow> double) \<Rightarrow> double \<Rightarrow> double \<Rightarrow> int \<Rightarrow> int \<Rightarrow> double \<times> double list
     \<Rightarrow> double \<times> double list" where
  "trapezoidal_rule_loop func a h m i (value, calls) =
     (if i \<le> m
      then trapezoidal_rule_loop func a h m (i + 1)
             (value + func (a + double_of_int i * h), calls @ [a + double_of_int i * h])
      else (value, calls))"
  by pat_completeness auto
termination
  by (relation "measure (\<lambda>(func, a, h, m, i, s). nat (m + 1 - i))") auto

declare trapezoidal_rule_loop.simps [simp del]

text \<open>
  The whole call: the result and the arguments of every call of \<^verbatim>\<open>func\<close>. The two
  calls of the last statement are listed left to right (C++ leaves their order open).
\<close>

definition trapezoidal_rule_run ::
  "(double \<Rightarrow> double) \<Rightarrow> double \<Rightarrow> double \<Rightarrow> 32 word \<Rightarrow> error + double \<times> double list" where
  "trapezoidal_rule_run func a b n =
     (let h = (b - a) / double_of_int (sint n) in
      if sint n - 1 < INT_MIN then Inl SignedOverflow
      else
        (case trapezoidal_rule_loop func a h (sint n - 1) 1 (0, []) of
           (value, calls) \<Rightarrow>
             (let value = (func a + 2 * value + func b) * h / 2
              in Inr (value, calls @ [a, b]))))"

definition trapezoidal_rule ::
  "(double \<Rightarrow> double) \<Rightarrow> double \<Rightarrow> double \<Rightarrow> 32 word \<Rightarrow> error + double" where
  "trapezoidal_rule func a b n = map_sum id fst (trapezoidal_rule_run func a b n)"

section \<open>The functions of the self-test\<close>

text \<open>
  \<^verbatim>\<open>exp\<close> of the C library on the special values: \<open>exp \<infinity> = \<infinity>\<close>, \<open>exp (-\<infinity>) = 0\<close>,
  and a NaN gives a NaN.
\<close>

fun exp_double :: "double \<Rightarrow> double" where
  "exp_double (Fin x) = Fin (exp x)"
| "exp_double PInf = PInf"
| "exp_double NInf = Fin 0"
| "exp_double NaN = NaN"

definition func1 :: "double \<Rightarrow> double" where
  "func1 x = 1 / x"

definition func2 :: "double \<Rightarrow> double" where
  "func2 x = exp_double (- x)"

definition func3 :: "double \<Rightarrow> double" where
  "func3 x = 1 / (1 + x * x)"

text \<open>
  \<^verbatim>\<open>test\<close> asserts that each of three results lies within \<open>10\<^sup>-\<^sup>6\<close> of a reference
  value. \<^verbatim>\<open>abs\<close> and \<^verbatim>\<open><\<close> on \<^verbatim>\<open>double\<close>: the absolute value of an infinity is
  \<open>\<infinity>\<close>, and a comparison with a NaN is false. \<open>test\<close> holds when no assertion fails.
\<close>

fun abs_double :: "double \<Rightarrow> double" where
  "abs_double (Fin x) = Fin \<bar>x\<bar>"
| "abs_double PInf = PInf"
| "abs_double NInf = PInf"
| "abs_double NaN = NaN"

fun less_double :: "double \<Rightarrow> double \<Rightarrow> bool" where
  "less_double NaN y = False"
| "less_double x NaN = False"
| "less_double (Fin x) (Fin y) = (x < y)"
| "less_double PInf y = False"
| "less_double x NInf = False"
| "less_double x y = True"

definition assertion :: "error + double \<Rightarrow> double \<Rightarrow> bool" where
  "assertion result reference =
     (case result of
        Inl e \<Rightarrow> False
      | Inr v \<Rightarrow> less_double (abs_double (v - reference)) (Fin (1 / 1000000)))"

definition test :: bool where
  "test \<longleftrightarrow>
     assertion (trapezoidal_rule func1 1 2 10) (Fin (693771 / 1000000))
     \<and> assertion (trapezoidal_rule func2 0 1 10) (Fin (632647 / 1000000))
     \<and> assertion (trapezoidal_rule func3 0 1 20) (Fin (785294 / 1000000))"

section \<open>Rounding to \<^verbatim>\<open>double\<close>\<close>

text \<open>
  The arithmetic above keeps every finite result as the real it is. What the machine
  does is modelled here: binary64, the result of each operation rounded to the nearest
  value with 53 significant bits, ties to the even one, gradual underflow below
  \<open>2\<^sup>-\<^sup>1\<^sup>0\<^sup>2\<^sup>2\<close>, and an infinity once the rounded magnitude reaches \<open>2\<^sup>1\<^sup>0\<^sup>2\<^sup>4\<close>. The
  sign of a zero is still not modelled.
\<close>

definition round_half_even :: "real \<Rightarrow> int" where
  "round_half_even s =
     (let f = \<lfloor>s\<rfloor>; d = s - of_int f
      in if d < 1 / 2 then f else if 1 / 2 < d then f + 1 else if even f then f else f + 1)"

definition overflow_bound :: real where
  "overflow_bound = 2 ^ 1024"

definition binary64 :: "real \<Rightarrow> double" where
  "binary64 x =
     (if x = 0 then Fin 0
      else
        let e = max (\<lfloor>log 2 \<bar>x\<bar>\<rfloor> - 52) (- 1074);
            y = of_int (round_half_even (x / 2 powi e)) * 2 powi e
        in if overflow_bound \<le> \<bar>y\<bar> then signed_infinity (x < 0) else Fin y)"

text \<open>The numbers that are values of \<^verbatim>\<open>double\<close>: rounding leaves them as they are.\<close>

definition representable :: "real \<Rightarrow> bool" where
  "representable x \<longleftrightarrow> binary64 x = Fin x"

text \<open>
  The four operations with the rounding applied to a finite result; on the special
  values and on a division by zero they are the operations defined before.
\<close>

fun plus_binary64 :: "double \<Rightarrow> double \<Rightarrow> double" where
  "plus_binary64 (Fin x) (Fin y) = binary64 (x + y)"
| "plus_binary64 x y = x + y"

fun minus_binary64 :: "double \<Rightarrow> double \<Rightarrow> double" where
  "minus_binary64 (Fin x) (Fin y) = binary64 (x - y)"
| "minus_binary64 x y = x - y"

fun times_binary64 :: "double \<Rightarrow> double \<Rightarrow> double" where
  "times_binary64 (Fin x) (Fin y) = binary64 (x * y)"
| "times_binary64 x y = x * y"

fun divide_binary64 :: "double \<Rightarrow> double \<Rightarrow> double" where
  "divide_binary64 (Fin x) (Fin y) = (if y = 0 then Fin x / Fin y else binary64 (x / y))"
| "divide_binary64 x y = x / y"

text \<open>\<^verbatim>\<open>trapezoidal_rule\<close> once more, line by line as before, in the rounded arithmetic.\<close>

function trapezoidal_rule_loop_binary64 ::
  "(double \<Rightarrow> double) \<Rightarrow> double \<Rightarrow> double \<Rightarrow> int \<Rightarrow> int \<Rightarrow> double \<times> double list
     \<Rightarrow> double \<times> double list" where
  "trapezoidal_rule_loop_binary64 func a h m i (value, calls) =
     (if i \<le> m
      then trapezoidal_rule_loop_binary64 func a h m (i + 1)
             (plus_binary64 value (func (plus_binary64 a (times_binary64 (double_of_int i) h))),
              calls @ [plus_binary64 a (times_binary64 (double_of_int i) h)])
      else (value, calls))"
  by pat_completeness auto
termination
  by (relation "measure (\<lambda>(func, a, h, m, i, s). nat (m + 1 - i))") auto

declare trapezoidal_rule_loop_binary64.simps [simp del]

definition trapezoidal_rule_run_binary64 ::
  "(double \<Rightarrow> double) \<Rightarrow> double \<Rightarrow> double \<Rightarrow> 32 word \<Rightarrow> error + double \<times> double list" where
  "trapezoidal_rule_run_binary64 func a b n =
     (let h = divide_binary64 (minus_binary64 b a) (double_of_int (sint n)) in
      if sint n - 1 < INT_MIN then Inl SignedOverflow
      else
        (case trapezoidal_rule_loop_binary64 func a h (sint n - 1) 1 (Fin 0, []) of
           (value, calls) \<Rightarrow>
             (let value =
                divide_binary64
                  (times_binary64
                     (plus_binary64 (plus_binary64 (func a) (times_binary64 (Fin 2) value)) (func b))
                     h)
                  (Fin 2)
              in Inr (value, calls @ [a, b]))))"

definition trapezoidal_rule_binary64 ::
  "(double \<Rightarrow> double) \<Rightarrow> double \<Rightarrow> double \<Rightarrow> 32 word \<Rightarrow> error + double" where
  "trapezoidal_rule_binary64 func a b n = map_sum id fst (trapezoidal_rule_run_binary64 func a b n)"

text \<open>The sample point \<^verbatim>\<open>a + (i * h)\<close> of line 64.\<close>

definition sample_binary64 :: "double \<Rightarrow> double \<Rightarrow> int \<Rightarrow> double" where
  "sample_binary64 a h i = plus_binary64 a (times_binary64 (double_of_int i) h)"

text \<open>A constant function near the top of the range, finite everywhere.\<close>

definition huge :: "double \<Rightarrow> double" where
  "huge x = Fin (2 ^ 1023)"

section \<open>Computations that do not round\<close>



section \<open>Linear functions, with rounding\<close>



section \<open>Linear combinations, with rounding\<close>




section \<open>The composite trapezoidal sum over the reals\<close>

text \<open>
  The formula of the algorithm read over the reals, for a real function \<open>F\<close>: the
  reference that the results of the routine on finite values are compared with.
\<close>

definition composite_trapezoid :: "(real \<Rightarrow> real) \<Rightarrow> real \<Rightarrow> real \<Rightarrow> int \<Rightarrow> real" where
  "composite_trapezoid F a b k =
     (let h = (b - a) / real_of_int k;
          S = (\<Sum>i = 1..k - 1. F (a + real_of_int i * h))
      in (F a + 2 * S + F b) * h / 2)"

text \<open>
  The same sum for \<open>F x = exp (- x)\<close> on \<open>[0, 1]\<close> with ten panels, as a polynomial in
  \<open>r = exp (- 1 / 10)\<close>: the sample values are the powers of \<open>r\<close>.
\<close>

definition exp_polynomial :: "real \<Rightarrow> real" where
  "exp_polynomial r =
     (1 + 2 * (r + r ^ 2 + r ^ 3 + r ^ 4 + r ^ 5 + r ^ 6 + r ^ 7 + r ^ 8 + r ^ 9) + r ^ 10)
       * (1 / 10) / 2"

section \<open>Numerals and conversions\<close>

lemma numeral_double: "(numeral k :: double) = Fin (numeral k)"
proof (induction k rule: num.induct)
  case One
  show ?case by (simp add: one_double_def)
next
  case (Bit0 k)
  have "(numeral (num.Bit0 k) :: double) = numeral k + numeral k"
    by (rule numeral.simps(2))
  also have "\<dots> = Fin (numeral k + numeral k)"
    by (simp only: Bit0 plus_double.simps)
  finally show ?case by (simp only: numeral.simps(2))
next
  case (Bit1 k)
  have "(numeral (num.Bit1 k) :: double) = numeral k + numeral k + 1"
    by (rule numeral.simps(3))
  also have "\<dots> = Fin (numeral k + numeral k + 1)"
    by (simp only: Bit1 plus_double.simps one_double_def)
  finally show ?case by (simp only: numeral.simps(3))
qed

section \<open>Facts about the arithmetic\<close>

lemma Fin_minus [simp]: "Fin x - Fin y = Fin (x - y)"
  by (simp add: minus_double_def)

lemma Fin_divide [simp]: "y \<noteq> 0 \<Longrightarrow> Fin x / Fin y = Fin (x / y)"
  by simp

lemmas double_eval = zero_double_def one_double_def numeral_double double_of_int_def

lemma double_of_int_times [simp]: "double_of_int i * Fin h = Fin (real_of_int i * h)"
  by (simp add: double_of_int_def)

section \<open>The loop as a sum\<close>

text \<open>
  Started at counter \<open>i\<close> with bound \<open>m\<close>, the loop adds the values of \<^verbatim>\<open>func\<close> at
  \<open>a + j * h\<close> for \<open>j = i, \<dots>, m\<close> to the accumulator, and calls \<^verbatim>\<open>func\<close> at these
  points and no others.
\<close>

lemma trapezoidal_rule_loop_eq:
  "trapezoidal_rule_loop func a h m i (value, calls) =
     (value + (\<Sum>j\<leftarrow>[i..m]. func (a + double_of_int j * h)),
      calls @ map (\<lambda>j. a + double_of_int j * h) [i..m])"
proof (induction func a h m i "(value, calls)" arbitrary: "value" calls
    rule: trapezoidal_rule_loop.induct)
  case (1 func a h m i "value" calls)
  show ?case
  proof (cases "i \<le> m")
    case True
    then have "[i..m] = i # [i + 1..m]"
      by (simp add: upto_rec1)
    with True 1 show ?thesis
      by (subst trapezoidal_rule_loop.simps) (simp add: add.assoc)
  next
    case False
    then show ?thesis
      by (subst trapezoidal_rule_loop.simps) simp
  qed
qed

lemma sint_no_overflow: "sint (n :: 32 word) - 1 < INT_MIN \<longleftrightarrow> sint n = INT_MIN"
  using sint_ge [of n] by (auto simp add: INT_MIN_def)

lemma trapezoidal_rule_run_eq:
  assumes "sint n \<noteq> INT_MIN"
  shows "trapezoidal_rule_run func a b n =
     (let h = (b - a) / double_of_int (sint n);
          S = (\<Sum>j\<leftarrow>[1..sint n - 1]. func (a + double_of_int j * h))
      in Inr ((func a + 2 * S + func b) * h / 2,
              map (\<lambda>j. a + double_of_int j * h) [1..sint n - 1] @ [a, b]))"
  using assms
  by (simp add: trapezoidal_rule_run_def sint_no_overflow trapezoidal_rule_loop_eq Let_def)

lemma sum_list_upto_sum: "(\<Sum>j\<leftarrow>[i..m]. (g j :: double)) = (\<Sum>j = i..m. g j)"
  by (simp add: sum_set_upto_conv_sum_list_int [symmetric])

lemma positive_not_INT_MIN: "1 \<le> sint (n :: 32 word) \<Longrightarrow> sint n \<noteq> INT_MIN"
  by (simp add: INT_MIN_def)

section \<open>The formula the routine computes\<close>

text \<open>
  Claim C1. For every function \<open>func\<close>, all bounds \<open>a\<close> and \<open>b\<close> and every \<open>n \<ge> 1\<close>, the
  routine returns \<open>(func a + 2 * S + func b) * h / 2\<close>, where \<open>h = (b - a) / n\<close> and \<open>S\<close> is
  the sum of \<open>func (a + i * h)\<close> over \<open>i = 1, \<dots>, n - 1\<close>; the sum over the empty range
  \<open>n = 1\<close> is \<open>0\<close>. The operations are those of \<^typ>\<open>double\<close>, so the equation also
  covers a \<open>func\<close> that returns an infinity or a NaN.
\<close>

theorem trapezoidal_rule_formula:
  assumes "1 \<le> sint n"
  shows "trapezoidal_rule func a b n =
     (let h = (b - a) / double_of_int (sint n);
          S = (\<Sum>i = 1..sint n - 1. func (a + double_of_int i * h))
      in Inr ((func a + 2 * S + func b) * h / 2))"
  using assms
  by (simp add: trapezoidal_rule_def trapezoidal_rule_run_eq positive_not_INT_MIN Let_def
      sum_list_upto_sum)

theorem trapezoidal_rule_formula_witness:
  "1 \<le> sint (2 :: 32 word) \<and> trapezoidal_rule func1 1 2 2 = Inr (Fin (17 / 24))"
  using trapezoidal_rule_formula [of 2 func1 1 2]
  by (simp add: Let_def func1_def double_eval)

section \<open>The calls of the supplied function\<close>

text \<open>
  Claim C7. For every \<open>n \<ge> 1\<close>, one call of the routine calls \<open>func\<close> exactly \<open>n + 1\<close>
  times: at \<open>a\<close>, at \<open>b\<close>, and at \<open>a + i * h\<close> for \<open>i = 1, \<dots>, n - 1\<close> with
  \<open>h = (b - a) / n\<close>, and nowhere else. The calls are compared as a multiset, so the
  statement does not depend on the order in which the two end points are evaluated.
\<close>

theorem trapezoidal_rule_calls:
  assumes "1 \<le> sint n"
  shows "\<exists>v calls. trapezoidal_rule_run func a b n = Inr (v, calls)
           \<and> int (length calls) = sint n + 1
           \<and> mset calls =
               mset (map (\<lambda>i. a + double_of_int i * ((b - a) / double_of_int (sint n)))
                         [1..sint n - 1]) + {#a, b#}"
  using assms
  by (simp add: trapezoidal_rule_run_eq positive_not_INT_MIN Let_def)

theorem trapezoidal_rule_calls_witness:
  "1 \<le> sint (3 :: 32 word) \<and>
   (\<exists>v calls. trapezoidal_rule_run func1 0 3 3 = Inr (v, calls) \<and> int (length calls) = 4
      \<and> mset calls = {#Fin 0, Fin 3, Fin 1, Fin 2#})"
  using trapezoidal_rule_calls [of 3 func1 0 3]
  by (simp add: double_eval upto.simps)

section \<open>Values that are not finite\<close>

lemma signed_infinity_not_finite [simp]: "\<not> is_finite (signed_infinity s)"
  by (cases s) simp_all

lemma not_finite_times: "\<not> is_finite h \<Longrightarrow> \<not> is_finite (x * h)"
  by (cases x; cases h) (auto split: if_splits)

lemma not_finite_times_left: "\<not> is_finite x \<Longrightarrow> \<not> is_finite (x * h)"
  by (cases x; cases h) (auto split: if_splits)

lemma not_finite_half: "\<not> is_finite x \<Longrightarrow> \<not> is_finite (x / 2)"
  by (cases x) (simp_all add: numeral_double)

lemma not_finite_plus_left: "\<not> is_finite x \<Longrightarrow> \<not> is_finite (x + y)"
  by (cases x; cases y) simp_all

lemma not_finite_plus_right: "\<not> is_finite y \<Longrightarrow> \<not> is_finite (x + y)"
  by (cases x; cases y) simp_all

lemma divide_by_zero_not_finite: "\<not> is_finite (x / double_of_int 0)"
  by (cases x) (simp_all add: double_of_int_def)

text \<open>
  Claim C8. With \<open>n = 0\<close> the step width is the quotient of \<open>b - a\<close> by zero, an infinity
  or a NaN; the routine checks nothing, raises nothing and returns a value that is not
  finite, whatever \<open>func\<close>, \<open>a\<close> and \<open>b\<close> are.
\<close>

theorem trapezoidal_rule_zero_subdivisions:
  "\<exists>v. trapezoidal_rule func a b 0 = Inr v \<and> \<not> is_finite v
       \<and> \<not> is_finite ((b - a) / double_of_int (sint (0 :: 32 word)))"
  by (simp add: trapezoidal_rule_def trapezoidal_rule_run_eq INT_MIN_def Let_def
      not_finite_half not_finite_times divide_by_zero_not_finite)

section \<open>Subdivision counts below one\<close>

text \<open>
  Claim C10 as stated, for every \<open>n \<le> 1\<close>, fails at the least \<^verbatim>\<open>int\<close> for the same
  reason: no list of two calls is produced there.
\<close>

theorem trapezoidal_rule_run_least_int:
  "trapezoidal_rule_run func2 0 1 (- 2147483648) = Inl SignedOverflow"
  by (simp add: trapezoidal_rule_run_def INT_MIN_def)

text \<open>
  Claim C10, amended. For every \<open>n \<le> 1\<close> above the least \<^verbatim>\<open>int\<close>, zero and the
  negative counts included, \<open>func\<close> is called exactly twice, once at \<open>a\<close> and once at
  \<open>b\<close>; and when \<open>func\<close> is not finite at one of the two, neither is the result.
\<close>

theorem trapezoidal_rule_two_calls:
  assumes "INT_MIN < sint n" and "sint n \<le> 1"
  shows "\<exists>v. trapezoidal_rule_run func a b n = Inr (v, [a, b])
           \<and> (\<not> is_finite (func a) \<or> \<not> is_finite (func b) \<longrightarrow> \<not> is_finite v)"
proof -
  have "\<not> is_finite (func a + 2 * 0 + func b)"
    if "\<not> is_finite (func a) \<or> \<not> is_finite (func b)"
    using that by (auto simp add: not_finite_plus_left not_finite_plus_right)
  then have "\<not> is_finite ((func a + 2 * 0 + func b) * h / 2)"
    if "\<not> is_finite (func a) \<or> \<not> is_finite (func b)" for h
    using that not_finite_times_left not_finite_half by blast
  with assms show ?thesis
    by (simp add: trapezoidal_rule_run_eq Let_def)
qed

theorem trapezoidal_rule_two_calls_witness:
  "INT_MIN < sint (0 :: 32 word) \<and> sint (0 :: 32 word) \<le> 1 \<and> \<not> is_finite (func1 0) \<and>
   (\<exists>v. trapezoidal_rule_run func1 0 1 0 = Inr (v, [0, 1]) \<and> \<not> is_finite v)"
  using trapezoidal_rule_two_calls [of 0 func1 0 1]
  by (simp add: func1_def double_eval INT_MIN_def)

section \<open>Finite values: the routine over the reals\<close>

text \<open>
  On finite bounds, with a \<open>func\<close> that maps finite values to finite values and a count
  \<open>n \<ge> 1\<close>, every intermediate value is finite and the routine returns the composite
  trapezoidal sum of the real function.
\<close>

lemma sum_Fin: "(\<Sum>i\<in>A. Fin (g i)) = Fin (\<Sum>i\<in>A. g i)"
  by (induction A rule: infinite_finite_induct) (simp_all add: zero_double_def)

lemma double_formula_real:
  assumes "\<And>x. func (Fin x) = Fin (F x)" and "k \<noteq> 0"
  shows "(let h = (Fin b - Fin a) / double_of_int k;
              S = (\<Sum>i = 1..k - 1. func (Fin a + double_of_int i * h))
          in (func (Fin a) + 2 * S + func (Fin b)) * h / 2) =
         Fin (composite_trapezoid F a b k)"
  using assms
  by (simp add: composite_trapezoid_def Let_def double_eval sum_Fin)

lemma trapezoidal_rule_eq:
  assumes "sint n \<noteq> INT_MIN"
  shows "trapezoidal_rule func a b n =
     Inr (let h = (b - a) / double_of_int (sint n);
              S = (\<Sum>i = 1..sint n - 1. func (a + double_of_int i * h))
          in (func a + 2 * S + func b) * h / 2)"
  using assms
  by (simp add: trapezoidal_rule_def trapezoidal_rule_run_eq Let_def sum_list_upto_sum)

lemma trapezoidal_rule_real:
  assumes "\<And>x. func (Fin x) = Fin (F x)" and "1 \<le> sint n"
  shows "trapezoidal_rule func (Fin a) (Fin b) n = Inr (Fin (composite_trapezoid F a b (sint n)))"
proof -
  from assms(2) have inrange: "sint n \<noteq> INT_MIN" and nonzero: "sint n \<noteq> 0"
    by (simp_all add: INT_MIN_def)
  from inrange have "trapezoidal_rule func (Fin a) (Fin b) n =
     Inr (let h = (Fin b - Fin a) / double_of_int (sint n);
              S = (\<Sum>i = 1..sint n - 1. func (Fin a + double_of_int i * h))
          in (func (Fin a) + 2 * S + func (Fin b)) * h / 2)"
    by (rule trapezoidal_rule_eq)
  also have "\<dots> = Inr (Fin (composite_trapezoid F a b (sint n)))"
    by (simp only: double_formula_real [of func F "sint n" b a, OF assms(1) nonzero])
  finally show ?thesis .
qed




section \<open>The three scenarios of the self-test\<close>

text \<open>
  The first and the third scenario only divide, so their results are rational numbers.
  The second samples \<open>exp\<close>; its result lies between the values of a polynomial at a
  lower and an upper bound of \<open>exp (- 1 / 10)\<close>, taken from the Maclaurin series.
\<close>

lemma exp_tenth_bounds:
  "10858049 / 12000000 \<le> exp (- (1 / 10) :: real)"
  "exp (- (1 / 10) :: real) \<le> 9048375 / 10000000"
proof -
  obtain t :: real where t: "\<bar>t\<bar> \<le> \<bar>- (1 / 10)\<bar>"
    and e: "exp (- (1 / 10)) = (\<Sum>m<6. (- (1 / 10)) ^ m / fact m) + exp t / fact 6 * (- (1 / 10)) ^ 6"
    using Maclaurin_exp_le [of "- (1 / 10)" 6] by blast
  have poly: "(\<Sum>m<6. (- (1 / 10 :: real)) ^ m / fact m) = 10858049 / 12000000"
    by (simp add: eval_nat_numeral lessThan_Suc fact_numeral)
  have "exp t \<le> exp \<bar>t\<bar>"
    by simp
  also have "\<dots> \<le> 1 + \<bar>t\<bar> + \<bar>t\<bar>\<^sup>2"
    using t by (intro exp_bound) simp_all
  also have "\<dots> \<le> 1 + 1 / 10 + (1 / 10)\<^sup>2"
    using t by (intro add_mono power_mono) simp_all
  finally have upper: "exp t \<le> 111 / 100"
    by (simp add: power2_eq_square)
  have lower: "0 \<le> exp t"
    by simp
  have rem: "exp t / fact 6 * (- (1 / 10)) ^ 6 = exp t / 720000000"
    by (simp add: eval_nat_numeral fact_numeral)
  show "10858049 / 12000000 \<le> exp (- (1 / 10) :: real)"
    unfolding e poly rem using lower by simp
  show "exp (- (1 / 10) :: real) \<le> 9048375 / 10000000"
    unfolding e poly rem using upper by simp
qed

lemma func1_value: "trapezoidal_rule func1 1 2 10 = Inr (Fin (161504821 / 232792560))"
  by (simp add: trapezoidal_rule_def trapezoidal_rule_run_eq INT_MIN_def Let_def upto.simps
      func1_def double_eval)

lemma func3_value:
  "trapezoidal_rule func3 0 1 20 =
     Inr (Fin (3991860704188783166372422614214910959 / 5083269095100309013534462761103522000))"
  by (simp add: trapezoidal_rule_def trapezoidal_rule_run_eq INT_MIN_def Let_def upto.simps
      func3_def double_eval)

lemma func2_Fin: "func2 (Fin x) = Fin (exp (- x))"
  by (simp add: func2_def)

lemma exp_polynomial_mono: "0 \<le> x \<Longrightarrow> x \<le> y \<Longrightarrow> exp_polynomial x \<le> exp_polynomial y"
  unfolding exp_polynomial_def
  by (intro divide_right_mono mult_right_mono add_mono mult_left_mono power_mono) simp_all

lemma func2_value:
  "trapezoidal_rule func2 0 1 10 = Inr (Fin (exp_polynomial (exp (- (1 / 10)))))"
proof -
  define r :: real where "r = exp (- (1 / 10))"
  have point: "exp (- (real_of_int i / 10)) = r ^ nat i" if "0 \<le> i" for i
  proof -
    have "- (real_of_int i / 10) = of_nat (nat i) * (- (1 / 10))"
      using that by simp
    then show ?thesis
      by (simp only: exp_of_nat_mult r_def)
  qed
  have "(\<Sum>i = 1..9. exp (- (real_of_int i / 10))) = (\<Sum>i = 1..9. r ^ nat i)"
    by (rule sum.cong) (simp_all add: point)
  also have "\<dots> = (\<Sum>i\<leftarrow>[1..9]. r ^ nat i)"
    by (simp add: sum_set_upto_conv_sum_list_int [symmetric])
  also have "\<dots> = r + r ^ 2 + r ^ 3 + r ^ 4 + r ^ 5 + r ^ 6 + r ^ 7 + r ^ 8 + r ^ 9"
    by (simp add: upto.simps)
  finally have "composite_trapezoid (\<lambda>x. exp (- x)) 0 1 10 = exp_polynomial r"
    unfolding composite_trapezoid_def Let_def exp_polynomial_def
    using point [of 10] by simp
  moreover have "trapezoidal_rule func2 (Fin 0) (Fin 1) 10 =
      Inr (Fin (composite_trapezoid (\<lambda>x. exp (- x)) 0 1 (sint (10 :: 32 word))))"
    by (rule trapezoidal_rule_real) (simp_all add: func2_Fin)
  ultimately show ?thesis
    by (simp add: double_eval r_def)
qed

lemma exp_polynomial_bounds:
  "632646 / 1000000 < exp_polynomial (exp (- (1 / 10)))"
  "exp_polynomial (exp (- (1 / 10))) < 632648 / 1000000"
proof -
  have "632646 / 1000000 < exp_polynomial (10858049 / 12000000)"
    by (simp add: exp_polynomial_def power_divide)
  also have "\<dots> \<le> exp_polynomial (exp (- (1 / 10)))"
    by (rule exp_polynomial_mono, simp, rule exp_tenth_bounds(1))
  finally show "632646 / 1000000 < exp_polynomial (exp (- (1 / 10)))" .
  have "exp_polynomial (exp (- (1 / 10))) \<le> exp_polynomial (9048375 / 10000000)"
    by (rule exp_polynomial_mono, simp, rule exp_tenth_bounds(2))
  also have "\<dots> < 632648 / 1000000"
    by (simp add: exp_polynomial_def power_divide)
  finally show "exp_polynomial (exp (- (1 / 10))) < 632648 / 1000000" .
qed

text \<open>All three assertions of \<^verbatim>\<open>test\<close> hold.\<close>

lemma test_clears: "test"
proof -
  have "\<bar>exp_polynomial (exp (- (1 / 10))) - 632647 / 1000000\<bar> < 1 / 1000000"
    using exp_polynomial_bounds by linarith
  then show ?thesis
    by (simp add: test_def assertion_def func1_value func2_value func3_value)
qed

text \<open>
  Claim C2. The three calls of the self-test return values within \<open>10\<^sup>-\<^sup>6\<close> of the
  reference values \<open>0.693771\<close>, \<open>0.632647\<close> and \<open>0.785294\<close>, the finite operations and
  \<open>exp\<close> being exact. The distances are about \<open>4.0 * 10\<^sup>-\<^sup>7\<close>, \<open>2.4 * 10\<^sup>-\<^sup>7\<close> and
  \<open>3.3 * 10\<^sup>-\<^sup>9\<close>.
\<close>

theorem test_values:
  "(\<exists>r. trapezoidal_rule func1 1 2 10 = Inr (Fin r) \<and> \<bar>r - 693771 / 1000000\<bar> < 1 / 1000000)
   \<and> (\<exists>r. trapezoidal_rule func2 0 1 10 = Inr (Fin r) \<and> \<bar>r - 632647 / 1000000\<bar> < 1 / 1000000)
   \<and> (\<exists>r. trapezoidal_rule func3 0 1 20 = Inr (Fin r) \<and> \<bar>r - 785294 / 1000000\<bar> < 1 / 1000000)"
proof (intro conjI)
  have "\<bar>161504821 / 232792560 - 693771 / 1000000\<bar> < (1 / 1000000 :: real)"
    by simp
  with func1_value
  show "\<exists>r. trapezoidal_rule func1 1 2 10 = Inr (Fin r) \<and> \<bar>r - 693771 / 1000000\<bar> < 1 / 1000000"
    by blast
  have "\<bar>exp_polynomial (exp (- (1 / 10))) - 632647 / 1000000\<bar> < 1 / 1000000"
    using exp_polynomial_bounds by linarith
  with func2_value
  show "\<exists>r. trapezoidal_rule func2 0 1 10 = Inr (Fin r) \<and> \<bar>r - 632647 / 1000000\<bar> < 1 / 1000000"
    by blast
  have "\<bar>3991860704188783166372422614214910959 / 5083269095100309013534462761103522000
          - 785294 / 1000000\<bar> < (1 / 1000000 :: real)"
    by simp
  with func3_value
  show "\<exists>r. trapezoidal_rule func3 0 1 20 = Inr (Fin r) \<and> \<bar>r - 785294 / 1000000\<bar> < 1 / 1000000"
    by blast
qed

section \<open>Facts about the rounding\<close>

lemma binary64_zero [simp]: "binary64 0 = Fin 0"
  by (simp add: binary64_def)

lemma round_half_even_of_int [simp]: "round_half_even (of_int i) = i"
  by (simp add: round_half_even_def)

lemma floor_log2_eq:
  assumes "2 powi k \<le> x" and "x < 2 powi (k + 1)"
  shows "\<lfloor>log 2 x\<rfloor> = k"
proof -
  have "0 < (2 :: real) powi k"
    by simp
  with assms(1) have "0 < x"
    by linarith
  moreover have "(2 :: real) powr real_of_int k = 2 powi k"
    and "(2 :: real) powr (real_of_int k + 1) = 2 powi (k + 1)"
    using powr_real_of_int' [of 2 k] powr_real_of_int' [of 2 "k + 1"] by simp_all
  ultimately show ?thesis
    using assms by (simp add: floor_log_eq_powr_iff)
qed

lemma binary64_eval:
  assumes "2 powi k \<le> \<bar>x\<bar>" and "\<bar>x\<bar> < 2 powi (k + 1)"
    and "e = max (k - 52) (- 1074)"
    and "round_half_even (x / 2 powi e) = m"
  shows "binary64 x =
     (if overflow_bound \<le> \<bar>of_int m * 2 powi e\<bar> then signed_infinity (x < 0)
      else Fin (of_int m * 2 powi e))"
proof -
  have "\<not> (2 :: real) powi k \<le> 0"
    by (simp add: not_le)
  with assms(1) have "x \<noteq> 0"
    by auto
  moreover have "\<lfloor>log 2 \<bar>x\<bar>\<rfloor> = k"
    using assms(1,2) by (rule floor_log2_eq)
  ultimately show ?thesis
    using assms(3,4) by (simp add: binary64_def Let_def)
qed

lemma int_nonzero_real:  fixes i :: int assumes "i \<noteq> 0" shows "1 \<le> real_of_int \<bar>i\<bar>"
proof -
  from assms have "1 \<le> \<bar>i\<bar>"
    by arith
  then have "real_of_int 1 \<le> real_of_int \<bar>i\<bar>"
    by (simp only: of_int_le_iff)
  then show ?thesis
    by simp
qed

lemma int_bound_real: fixes i :: int assumes "\<bar>i\<bar> < 2 ^ 53" shows "real_of_int \<bar>i\<bar> < 2 ^ 53"
proof -
  from assms have "real_of_int \<bar>i\<bar> < real_of_int (2 ^ 53)"
    by (simp only: of_int_less_iff)
  then show ?thesis
    by simp
qed

lemma power_two_less_53: assumes "(2 :: real) powi ki < 2 powi 53" shows "ki \<le> 52"
proof (rule ccontr)
  assume "\<not> ki \<le> 52"
  then have "53 \<le> ki"
    by simp
  then have "(2 :: real) powi 53 \<le> 2 powi ki"
    by (intro power_int_increasing) simp_all
  with assms show False
    by simp
qed

lemma overflow_bound_split: "(2 :: real) ^ 53 * 2 powi 971 = overflow_bound"
  by (simp add: overflow_bound_def)

lemma representable_dyadic:
  assumes "\<bar>i\<bar> < 2 ^ 53" and "- 1074 \<le> j" and "j \<le> 971"
  shows "representable (of_int i * 2 powi j)"
proof (cases "i = 0")
  case True
  then show ?thesis
    by (simp add: representable_def)
next
  case False
  define x :: real where "x = of_int i * 2 powi j"
  define ki where "ki = \<lfloor>log 2 (real_of_int \<bar>i\<bar>)\<rfloor>"
  have one: "1 \<le> real_of_int \<bar>i\<bar>"
    using False by (rule int_nonzero_real)
  then have pos: "0 < real_of_int \<bar>i\<bar>"
    by linarith
  have "2 powr real_of_int ki \<le> real_of_int \<bar>i\<bar>
      \<and> real_of_int \<bar>i\<bar> < 2 powr (real_of_int ki + 1)"
    using floor_log_eq_powr_iff [of "real_of_int \<bar>i\<bar>" 2 ki] pos
    by (simp add: ki_def)
  then have ki: "2 powi ki \<le> real_of_int \<bar>i\<bar>" "real_of_int \<bar>i\<bar> < 2 powi (ki + 1)"
    using powr_real_of_int' [of 2 ki] powr_real_of_int' [of 2 "ki + 1"] by simp_all
  from one have "0 \<le> log 2 (real_of_int \<bar>i\<bar>)"
    by simp
  then have ki0: "0 \<le> ki"
    by (simp add: ki_def)
  have bound: "real_of_int \<bar>i\<bar> < 2 ^ 53"
    using assms(1) by (rule int_bound_real)
  with ki(1) have "(2 :: real) powi ki < 2 powi 53"
    by simp
  then have ki52: "ki \<le> 52"
    by (rule power_two_less_53)
  define e where "e = max (ki + j - 52) (- 1074)"
  have e: "e \<le> j"
    using ki52 assms(2) by (simp add: e_def)
  have absx: "\<bar>x\<bar> = real_of_int \<bar>i\<bar> * 2 powi j"
    by (simp add: x_def abs_mult)
  have lower: "2 powi (ki + j) \<le> \<bar>x\<bar>"
    using ki(1) by (simp add: absx power_int_add)
  have upper: "\<bar>x\<bar> < 2 powi (ki + j + 1)"
    using ki(2) by (simp add: absx power_int_add)
  have "x / 2 powi e = of_int i * 2 powi (j - e)"
    by (simp add: x_def power_int_diff)
  also have "\<dots> = of_int (i * 2 ^ nat (j - e))"
    using e by (simp add: power_int_def)
  finally have scaled: "x / 2 powi e = of_int (i * 2 ^ nat (j - e))" .
  have m: "round_half_even (x / 2 powi e) = i * 2 ^ nat (j - e)"
    unfolding scaled by (rule round_half_even_of_int)
  have restored: "of_int (i * 2 ^ nat (j - e)) * 2 powi e = x"
    unfolding scaled [symmetric] by simp
  have "\<bar>x\<bar> < 2 ^ 53 * 2 powi j"
    using bound by (simp add: absx)
  also have "\<dots> \<le> 2 ^ 53 * 2 powi 971"
    using assms(3) by (intro mult_left_mono power_int_increasing) simp_all
  also have "\<dots> = overflow_bound"
    by (rule overflow_bound_split)
  finally have range: "\<bar>x\<bar> < overflow_bound" .
  have "e = max (ki + j - 52) (- 1074)"
    by (rule e_def)
  from binary64_eval [OF lower upper this m] range have "binary64 x = Fin x"
    unfolding restored by simp
  then show ?thesis
    by (simp add: representable_def x_def)
qed

lemma representable_int: "\<bar>i\<bar> < 2 ^ 53 \<Longrightarrow> representable (of_int i)"
  using representable_dyadic [of i 0] by simp

section \<open>The rounded loop\<close>

lemma trapezoidal_rule_loop_binary64_eq:
  "trapezoidal_rule_loop_binary64 func a h m i (value, calls) =
     (foldl (\<lambda>s j. plus_binary64 s (func (sample_binary64 a h j))) value [i..m],
      calls @ map (sample_binary64 a h) [i..m])"
proof (induction func a h m i "(value, calls)" arbitrary: "value" calls
    rule: trapezoidal_rule_loop_binary64.induct)
  case (1 func a h m i "value" calls)
  show ?case
  proof (cases "i \<le> m")
    case True
    then have "[i..m] = i # [i + 1..m]"
      by (simp add: upto_rec1)
    with True 1 show ?thesis
      by (subst trapezoidal_rule_loop_binary64.simps) (simp add: sample_binary64_def)
  next
    case False
    then show ?thesis
      by (subst trapezoidal_rule_loop_binary64.simps) simp
  qed
qed

lemma trapezoidal_rule_run_binary64_eq:
  assumes "sint n \<noteq> INT_MIN"
  shows "trapezoidal_rule_run_binary64 func a b n =
     (let h = divide_binary64 (minus_binary64 b a) (double_of_int (sint n));
          S = foldl (\<lambda>s j. plus_binary64 s (func (sample_binary64 a h j))) (Fin 0) [1..sint n - 1]
      in Inr (divide_binary64
                (times_binary64
                   (plus_binary64 (plus_binary64 (func a) (times_binary64 (Fin 2) S)) (func b)) h)
                (Fin 2),
              map (sample_binary64 a h) [1..sint n - 1] @ [a, b]))"
  using assms
  by (simp add: trapezoidal_rule_run_binary64_def sint_no_overflow
      trapezoidal_rule_loop_binary64_eq Let_def)

section \<open>An interval of zero width, with rounding\<close>


lemma representable_one: "representable 1"
  using representable_int [of 1] by simp

lemma binary64_one [simp]: "binary64 1 = Fin 1"
  using representable_one by (simp add: representable_def)

lemma two_1023: "(2 :: real) ^ 1023 = of_int (2 ^ 52) * 2 powi 971"
  by simp

lemma binary64_two_1023: "binary64 (2 ^ 1023) = Fin (2 ^ 1023)"
  using representable_dyadic [of "2 ^ 52" 971]
  unfolding representable_def two_1023 [symmetric] by simp

lemma binary64_two_1024: "binary64 (2 ^ 1024) = PInf"
proof -
  have "binary64 (2 ^ 1024) =
      (if overflow_bound \<le> \<bar>of_int (2 ^ 52) * 2 powi 972\<bar> then signed_infinity (2 ^ 1024 < (0::real))
       else Fin (of_int (2 ^ 52) * 2 powi 972))"
  proof (rule binary64_eval)
    show "(2 :: real) powi 1024 \<le> \<bar>2 ^ 1024\<bar>"
      by simp
    show "\<bar>2 ^ 1024\<bar> < (2 :: real) powi (1024 + 1)"
      by simp
    show "(972 :: int) = max (1024 - 52) (- 1074)"
      by simp
    have "(2 :: real) ^ 1024 / 2 powi 972 = of_int (2 ^ 52)"
      by simp
    then show "round_half_even (2 ^ 1024 / 2 powi 972) = 2 ^ 52"
      by (simp only: round_half_even_of_int)
  qed
  then show ?thesis
    by (simp add: overflow_bound_def)
qed



lemma binary64_numeral [simp]:
  "numeral k < (2 :: int) ^ 53 \<Longrightarrow> binary64 (numeral k) = Fin (numeral k)"
  using representable_int [of "numeral k"] by (simp add: representable_def)




section \<open>Negative subdivision counts, with rounding\<close>

lemma binary64_quarter: "binary64 (- (1 / 4)) = Fin (- (1 / 4))"
  using representable_dyadic [of "- 1" "- 2"] by (simp add: representable_def)

lemma binary64_dyadic_examples:
  "binary64 (- (3 / 4)) = Fin (- (3 / 4))" "binary64 (- (3 / 8)) = Fin (- (3 / 8))"
  using representable_dyadic [of "- 3" "- 2"] representable_dyadic [of "- 3" "- 3"]
  by (simp_all add: representable_def)

lemma negative_count_value:
  assumes "k \<noteq> 0"
    and "representable (fa + fb)" and "representable (b - a)"
    and "representable ((b - a) / real_of_int k)"
    and "representable ((fa + fb) * ((b - a) / real_of_int k))"
    and "representable ((fa + fb) * ((b - a) / real_of_int k) / 2)"
  shows "divide_binary64
           (times_binary64 (plus_binary64 (Fin fa) (Fin fb))
              (divide_binary64 (minus_binary64 (Fin b) (Fin a)) (double_of_int k)))
           (Fin 2) =
         Fin ((fa + fb) * (b - a) / (2 * real_of_int k))"
  using assms by (simp add: representable_def double_of_int_def)

text \<open>
  Claim C9 as stated fails in two ways. At the least \<^verbatim>\<open>int\<close> the loop test
  \<^verbatim>\<open>i <= n - 1\<close> overflows. And for a function finite at both bounds the value
  returned need not be finite: with the constant \<open>2\<^sup>1\<^sup>0\<^sup>2\<^sup>3\<close>, \<open>a = 1\<close>, \<open>b = 2\<close> and
  \<open>n = -4\<close> the sum \<open>func a + func b\<close> overflows and the result is \<open>-\<infinity>\<close>, where the
  claim has \<open>-2\<^sup>1\<^sup>0\<^sup>2\<^sup>1\<close>.
\<close>

theorem negative_count_binary64_fails:
  "trapezoidal_rule_run_binary64 huge (Fin 1) (Fin 2) (- 2147483648) = Inl SignedOverflow
   \<and> huge (Fin 1) = Fin (2 ^ 1023) \<and> huge (Fin 2) = Fin (2 ^ 1023)
   \<and> trapezoidal_rule_binary64 huge (Fin 1) (Fin 2) (- 4) = Inr NInf"
proof -
  have "trapezoidal_rule_run_binary64 huge (Fin 1) (Fin 2) (- 2147483648) = Inl SignedOverflow"
    by (simp add: trapezoidal_rule_run_binary64_def INT_MIN_def)
  moreover have "binary64 (2 ^ 1023 + 2 ^ 1023) = PInf"
    using binary64_two_1024 by simp
  with binary64_two_1023 binary64_quarter
  have "trapezoidal_rule_binary64 huge (Fin 1) (Fin 2) (- 4) = Inr NInf"
    by (simp add: trapezoidal_rule_binary64_def trapezoidal_rule_run_binary64_eq
        INT_MIN_def Let_def huge_def double_of_int_def)
  ultimately show ?thesis
    by (simp add: huge_def)
qed

text \<open>
  Claim C9, amended. For every negative \<open>n\<close> above the least \<^verbatim>\<open>int\<close> and every
  function finite at the bounds \<open>a\<close> and \<open>b\<close>, the routine raises nothing, runs the loop
  body zero times, and returns \<open>(func a + func b) * h / 2\<close> with \<open>h = (b - a) / n\<close>, each
  operation rounded. That is the finite value \<open>(func a + func b) * (b - a) / (2 * n)\<close>
  whenever none of the five operations rounds or overflows.
\<close>

theorem negative_count_binary64:
  assumes "INT_MIN < sint n" and "sint n \<le> - 1"
    and "func (Fin a) = Fin fa" and "func (Fin b) = Fin fb" and "representable fa"
  shows "\<exists>v. trapezoidal_rule_run_binary64 func (Fin a) (Fin b) n = Inr (v, [Fin a, Fin b])
     \<and> v = divide_binary64
             (times_binary64 (plus_binary64 (Fin fa) (Fin fb))
                (divide_binary64 (minus_binary64 (Fin b) (Fin a)) (double_of_int (sint n))))
             (Fin 2)
     \<and> (representable (fa + fb) \<and> representable (b - a)
          \<and> representable ((b - a) / real_of_int (sint n))
          \<and> representable ((fa + fb) * ((b - a) / real_of_int (sint n)))
          \<and> representable ((fa + fb) * ((b - a) / real_of_int (sint n)) / 2)
        \<longrightarrow> v = Fin ((fa + fb) * (b - a) / (2 * real_of_int (sint n))))"
proof -
  from assms(1,2) have inrange: "sint n \<noteq> INT_MIN" and nonzero: "sint n \<noteq> 0"
    and empty: "[1..sint n - 1] = []"
    by simp_all
  define V where "V = divide_binary64
             (times_binary64 (plus_binary64 (Fin fa) (Fin fb))
                (divide_binary64 (minus_binary64 (Fin b) (Fin a)) (double_of_int (sint n))))
             (Fin 2)"
  have first: "plus_binary64 (Fin fa) (times_binary64 (Fin 2) (Fin 0)) = Fin fa"
    using assms(5) by (simp add: representable_def)
  have run: "trapezoidal_rule_run_binary64 func (Fin a) (Fin b) n = Inr (V, [Fin a, Fin b])"
    unfolding trapezoidal_rule_run_binary64_eq [OF inrange] Let_def empty assms(3,4) V_def
    by (simp only: foldl_Nil list.map append_Nil first)
  have exact: "V = Fin ((fa + fb) * (b - a) / (2 * real_of_int (sint n)))"
    if "representable (fa + fb)" "representable (b - a)"
      "representable ((b - a) / real_of_int (sint n))"
      "representable ((fa + fb) * ((b - a) / real_of_int (sint n)))"
      "representable ((fa + fb) * ((b - a) / real_of_int (sint n)) / 2)"
    unfolding V_def using nonzero that by (rule negative_count_value)
  from run exact show ?thesis
    unfolding V_def by blast
qed

theorem negative_count_binary64_witness:
  "INT_MIN < sint (- 4 :: 32 word) \<and> sint (- 4 :: 32 word) \<le> - 1 \<and> representable 1
   \<and> representable (1 + 2) \<and> representable (2 - 1) \<and> representable ((2 - 1) / - 4)
   \<and> representable ((1 + 2) * ((2 - 1) / - 4)) \<and> representable ((1 + 2) * ((2 - 1) / - 4) / 2)
   \<and> trapezoidal_rule_run_binary64 (\<lambda>x. x) (Fin 1) (Fin 2) (- 4) =
       Inr (Fin (- (3 / 8)), [Fin 1, Fin 2])"
  using negative_count_binary64 [of "- 4" "\<lambda>x. x" 1 1 2 2]
    binary64_quarter binary64_dyadic_examples representable_int [of 3]
  by (simp add: representable_def INT_MIN_def)

section \<open>The routine where nothing rounds\<close>




section \<open>Exactness on linear functions, with rounding\<close>








section \<open>Linearity, with rounding\<close>






section \<open>Reversing the bounds, with rounding\<close>








lemma binary64_neg_numeral [simp]:
  "numeral k < (2 :: int) ^ 53 \<Longrightarrow> binary64 (- numeral k) = Fin (- numeral k)"
  using representable_int [of "- numeral k"] by (simp add: representable_def)





end
